theory Spec2Isabelle
  imports Complex_Main
begin

section \<open>PD gain synthesis for a single joint: the embedding\<close>

text \<open>
  The development embeds \<^verbatim>\<open>design_pd_with_limits\<close> of
  \<^verbatim>\<open>single_joint_PD_design.py\<close>, twice.

  The first embedding computes as Python does, in binary64. A float is a finite value, one
  of the two infinities or NaN; the two zeros are one value, since the function never
  tells them apart. An arithmetic result is the exact result rounded to the nearest
  binary64 value, ties to even, with gradual underflow below \<open>2 ^ (- 1022)\<close> and overflow
  to an infinity from \<open>2 ^ 1024\<close> on. The operations follow Python, not bare IEEE 754:
  \<^verbatim>\<open>a / b\<close> raises \<^verbatim>\<open>ZeroDivisionError\<close> when \<open>b\<close> is zero,
  \<^verbatim>\<open>math.sqrt\<close> raises \<^verbatim>\<open>ValueError\<close> on a negative argument,
  \<^verbatim>\<open>x ** 2\<close> raises \<^verbatim>\<open>OverflowError\<close> when a finite \<open>x\<close> has a square out of
  range and gives \<open>0.0\<close> when the square underflows, \<^verbatim>\<open>*\<close> overflows silently to
  an infinity, every comparison with NaN is false, and \<^verbatim>\<open>min\<close> raises
  \<^verbatim>\<open>ValueError\<close> on an empty list. The platform's \<^verbatim>\<open>pow\<close> and
  \<^verbatim>\<open>sqrt\<close> are taken as correctly rounded. An argument \<open>Num x\<close> may hold any real
  \<open>x\<close>; the floats are among them.

  The second embedding idealises \<^verbatim>\<open>float\<close> as \<^typ>\<open>real\<close> and
  \<^verbatim>\<open>math.pi\<close> as \<^term>\<open>pi\<close>. It serves the two statements that do not depend on
  rounding: what happens when \<open>J \<le> 0\<close>, and the values of the documented scenario to
  the precision the specification prints.

  In both, a raised exception is \<open>Inl\<close>, a normal return is \<open>Inr\<close>, and the function's
  \<^verbatim>\<open>return None\<close> is \<open>Inr None\<close>.
\<close>

subsection \<open>Exceptions and binary64 values\<close>

datatype py_error = ZeroDivisionError | ValueError | OverflowError

datatype f64 = Num real | PosInf | NegInf | NaN

text \<open>Rounding a real to the nearest integer, ties to the even one.\<close>

definition rne :: "real \<Rightarrow> int" where
  "rne t = (let n = \<lfloor>t\<rfloor>; d = t - of_int n in
            if d < 1 / 2 then n else if 1 / 2 < d then n + 1
            else if even n then n else n + 1)"

text \<open>
  The spacing of binary64 around \<open>x\<close>: \<open>2 ^ (e - 52)\<close> in the binade
  \<open>2 ^ e \<le> \<bar>x\<bar> < 2 ^ (e + 1)\<close>, and \<open>2 ^ (- 1074)\<close> throughout the subnormal range.
\<close>

definition quantum :: "real \<Rightarrow> real" where
  "quantum x = 2 powr (of_int (max \<lfloor>log 2 \<bar>x\<bar>\<rfloor> (- 1022)) - 52)"

text \<open>The binary64 value of an exact result \<open>x\<close>.\<close>

definition rnd :: "real \<Rightarrow> f64" where
  "rnd x = (if x = 0 then Num 0
            else let y = of_int (rne (x / quantum x)) * quantum x in
                 if 2 ^ 1024 \<le> \<bar>y\<bar> then (if 0 < x then PosInf else NegInf) else Num y)"

subsection \<open>Python's operations on floats\<close>

definition bind_r :: "py_error + 'a \<Rightarrow> ('a \<Rightarrow> py_error + 'b) \<Rightarrow> py_error + 'b" where
  "bind_r m k = (case m of Inl e \<Rightarrow> Inl e | Inr v \<Rightarrow> k v)"

fun sign_f64 :: "f64 \<Rightarrow> real" where
  "sign_f64 (Num x) = sgn x"
| "sign_f64 PosInf = 1"
| "sign_f64 NegInf = - 1"
| "sign_f64 NaN = 0"

definition inf_f64 :: "real \<Rightarrow> f64" where
  "inf_f64 s = (if 0 < s then PosInf else NegInf)"

text \<open>\<^verbatim>\<open>a * b\<close>: never raises; zero times an infinity is NaN.\<close>

definition f64_mul :: "f64 \<Rightarrow> f64 \<Rightarrow> f64" where
  "f64_mul a b =
     (if a = NaN \<or> b = NaN then NaN
      else case (a, b) of
             (Num x, Num y) \<Rightarrow> rnd (x * y)
           | _ \<Rightarrow> if sign_f64 a * sign_f64 b = 0 then NaN
                  else inf_f64 (sign_f64 a * sign_f64 b))"

text \<open>\<^verbatim>\<open>a / b\<close>: the test for a zero divisor comes first, also when \<open>a\<close> is NaN.\<close>

definition py_div_f64 :: "f64 \<Rightarrow> f64 \<Rightarrow> py_error + f64" where
  "py_div_f64 a b =
     (if b = Num 0 then Inl ZeroDivisionError
      else Inr (if a = NaN \<or> b = NaN then NaN
                else case (a, b) of
                       (Num x, Num y) \<Rightarrow> rnd (x / y)
                     | (Num x, _) \<Rightarrow> Num 0
                     | (_, Num y) \<Rightarrow> inf_f64 (sign_f64 a * sgn y)
                     | _ \<Rightarrow> NaN))"

definition math_sqrt_f64 :: "f64 \<Rightarrow> py_error + f64" where
  "math_sqrt_f64 a =
     (case a of
        NaN \<Rightarrow> Inr NaN
      | PosInf \<Rightarrow> Inr PosInf
      | NegInf \<Rightarrow> Inl ValueError
      | Num x \<Rightarrow> if x < 0 then Inl ValueError else Inr (rnd (sqrt x)))"

text \<open>\<^verbatim>\<open>a ** 2\<close>, the only power the function takes.\<close>

definition py_pow2_f64 :: "f64 \<Rightarrow> py_error + f64" where
  "py_pow2_f64 a =
     (case a of
        NaN \<Rightarrow> Inr NaN
      | PosInf \<Rightarrow> Inr PosInf
      | NegInf \<Rightarrow> Inr PosInf
      | Num x \<Rightarrow> (case rnd (x * x) of
                    Num y \<Rightarrow> Inr (Num y)
                  | _ \<Rightarrow> Inl OverflowError))"

text \<open>The comparisons \<^verbatim>\<open><\<close>, \<^verbatim>\<open><=\<close> and \<^verbatim>\<open>==\<close>.\<close>

fun f64_less :: "f64 \<Rightarrow> f64 \<Rightarrow> bool" where
  "f64_less (Num x) (Num y) = (x < y)"
| "f64_less (Num x) PosInf = True"
| "f64_less NegInf (Num y) = True"
| "f64_less NegInf PosInf = True"
| "f64_less _ _ = False"

definition f64_le :: "f64 \<Rightarrow> f64 \<Rightarrow> bool" where
  "f64_le a b = (a \<noteq> NaN \<and> b \<noteq> NaN \<and> \<not> f64_less b a)"

definition f64_eq :: "f64 \<Rightarrow> f64 \<Rightarrow> bool" where
  "f64_eq a b = (a \<noteq> NaN \<and> a = b)"

text \<open>
  \<^verbatim>\<open>min(xs)\<close>: the first element is the running minimum, and a later element
  replaces it only when it compares strictly smaller.
\<close>

fun py_min_f64 :: "f64 list \<Rightarrow> py_error + f64" where
  "py_min_f64 [] = Inl ValueError"
| "py_min_f64 (x # xs) = Inr (fold (\<lambda>y m. if f64_less y m then y else m) xs x)"

text \<open>The floats that \<^verbatim>\<open>math.pi\<close> and the literal \<^verbatim>\<open>1.8\<close> denote.\<close>

definition math_pi :: f64 where
  "math_pi = Num (884279719003555 / 2 ^ 48)"

definition lit_1_8 :: f64 where
  "lit_1_8 = Num (8106479329266893 / 2 ^ 52)"

subsection \<open>The result\<close>

text \<open>The dataclass \<^verbatim>\<open>PDDesignResult\<close> (lines 10-33), field by field.\<close>

record PDDesignResult_f64 =
  J :: f64
  f_n_des :: f64
  zeta_des :: f64
  kp_max :: "f64 option"
  kd_max :: "f64 option"
  omega_n_des :: f64
  kp_des :: f64
  kd_des :: f64
  kp_actual :: f64
  kd_actual :: f64
  omega_n_actual :: f64
  f_n_actual :: f64
  zeta_actual :: f64
  t_r_actual :: f64
  t_s_actual :: f64

subsection \<open>The candidate frequencies (lines 56-68)\<close>

text \<open>
  \<^verbatim>\<open>omega_n_limits\<close> starts as \<^verbatim>\<open>[omega_n_des]\<close>; the Kp block appends
  \<^verbatim>\<open>math.sqrt(kp_max / J)\<close> and the Kd block appends
  \<^verbatim>\<open>kd_max / (2.0 * zeta_des * J)\<close>, each under the guards of the source.
\<close>

definition omega_n_limits_f64 ::
  "f64 \<Rightarrow> f64 \<Rightarrow> f64 \<Rightarrow> f64 option \<Rightarrow> f64 option \<Rightarrow> py_error + f64 list" where
  "omega_n_limits_f64 = (\<lambda>J omega_n_des zeta_des kp_max kd_max.
     bind_r
       (case kp_max of
          None \<Rightarrow> Inr [omega_n_des]
        | Some kp \<Rightarrow>
            if f64_less (Num 0) kp then
              bind_r (py_div_f64 kp J) (\<lambda>q.
              bind_r (math_sqrt_f64 q) (\<lambda>omega_n_limit_kp.
                Inr (if f64_less (Num 0) omega_n_limit_kp
                     then [omega_n_des] @ [omega_n_limit_kp]
                     else [omega_n_des])))
            else Inr [omega_n_des])
       (\<lambda>limits.
          case kd_max of
            None \<Rightarrow> Inr limits
          | Some kd \<Rightarrow>
              if f64_less (Num 0) kd \<and> f64_less (Num 0) zeta_des then
                bind_r (py_div_f64 kd (f64_mul (f64_mul (Num 2) zeta_des) J)) (\<lambda>omega_n_limit_kd.
                  Inr (if f64_less (Num 0) omega_n_limit_kd
                       then limits @ [omega_n_limit_kd] else limits))
              else Inr limits))"

subsection \<open>The design function (lines 35-107)\<close>

definition design_pd_with_limits_f64 ::
  "f64 \<Rightarrow> f64 \<Rightarrow> f64 \<Rightarrow> f64 option \<Rightarrow> f64 option
     \<Rightarrow> py_error + PDDesignResult_f64 option" where
  "design_pd_with_limits_f64 = (\<lambda>J f_n_des zeta_des kp_max kd_max.
     if f64_le J (Num 0) then Inr None
     else
       let omega_n_des = f64_mul (f64_mul (Num 2) math_pi) f_n_des in
       bind_r (py_pow2_f64 omega_n_des) (\<lambda>omega_n_des_sq.
       let kp_des = f64_mul J omega_n_des_sq;
           kd_des = f64_mul (f64_mul (f64_mul (Num 2) zeta_des) J) omega_n_des
       in
       bind_r (omega_n_limits_f64 J omega_n_des zeta_des kp_max kd_max) (\<lambda>limits.
       bind_r (py_min_f64 limits) (\<lambda>omega_n_actual.
       bind_r (py_pow2_f64 omega_n_actual) (\<lambda>omega_n_actual_sq.
         let kp_actual = f64_mul J omega_n_actual_sq;
             kd_actual = f64_mul (f64_mul (f64_mul (Num 2) zeta_des) J) omega_n_actual
         in
         bind_r (py_div_f64 omega_n_actual (f64_mul (Num 2) math_pi)) (\<lambda>f_n_actual.
         bind_r
           (if f64_less (Num 0) kp_actual then
              bind_r (math_sqrt_f64 (f64_mul J kp_actual)) (\<lambda>s.
                py_div_f64 kd_actual (f64_mul (Num 2) s))
            else Inr (Num 0)) (\<lambda>zeta_actual.
         bind_r
           (if f64_less (Num 0) omega_n_actual then
              bind_r (py_div_f64 lit_1_8 omega_n_actual) (\<lambda>t_r.
              bind_r
                (if f64_less (Num 0) zeta_actual then
                   py_div_f64 (Num 4) (f64_mul zeta_actual omega_n_actual)
                 else Inr PosInf) (\<lambda>t_s_actual.
              Inr (t_r, t_s_actual)))
            else Inr (PosInf, PosInf)) (\<lambda>(t_r_actual, t_s_actual).
         Inr (Some \<lparr>J = J, f_n_des = f_n_des, zeta_des = zeta_des,
                    kp_max = kp_max, kd_max = kd_max,
                    omega_n_des = omega_n_des, kp_des = kp_des, kd_des = kd_des,
                    kp_actual = kp_actual, kd_actual = kd_actual,
                    omega_n_actual = omega_n_actual, f_n_actual = f_n_actual,
                    zeta_actual = zeta_actual,
                    t_r_actual = t_r_actual, t_s_actual = t_s_actual\<rparr>)))))))))"

text \<open>
  A call site: \<^verbatim>\<open>kp_max\<close> and \<^verbatim>\<open>kd_max\<close> have the defaults
  \<^verbatim>\<open>500.0\<close> and \<^verbatim>\<open>5.0\<close> (lines 39-40), taken when the argument is left out.
\<close>

datatype 'a arg = Omitted | Passed 'a

definition design_pd_with_limits_call_f64 ::
  "f64 \<Rightarrow> f64 \<Rightarrow> f64 \<Rightarrow> f64 option arg \<Rightarrow> f64 option arg
     \<Rightarrow> py_error + PDDesignResult_f64 option" where
  "design_pd_with_limits_call_f64 = (\<lambda>J f_n_des zeta_des kp_arg kd_arg.
     design_pd_with_limits_f64 J f_n_des zeta_des
       (case kp_arg of Omitted \<Rightarrow> Some (Num 500) | Passed v \<Rightarrow> v)
       (case kd_arg of Omitted \<Rightarrow> Some (Num 5) | Passed v \<Rightarrow> v))"

subsection \<open>The two bound blocks on their own\<close>

text \<open>
  Lines 59-62 and lines 65-68, each as a function of its own: the candidate frequency
  that the block appends, if it appends one. The list of \<open>omega_n_limits_f64\<close> is proved
  below to be \<open>omega_n_des\<close> followed by these candidates.
\<close>

definition kp_candidate_f64 :: "f64 \<Rightarrow> f64 option \<Rightarrow> py_error + f64 option" where
  "kp_candidate_f64 j kp =
     (case kp of
        None \<Rightarrow> Inr None
      | Some k \<Rightarrow>
          if f64_less (Num 0) k then
            bind_r (py_div_f64 k j) (\<lambda>q.
            bind_r (math_sqrt_f64 q) (\<lambda>s.
              Inr (if f64_less (Num 0) s then Some s else None)))
          else Inr None)"

definition kd_candidate_f64 :: "f64 \<Rightarrow> f64 \<Rightarrow> f64 option \<Rightarrow> py_error + f64 option" where
  "kd_candidate_f64 j z kd =
     (case kd of
        None \<Rightarrow> Inr None
      | Some k \<Rightarrow>
          if f64_less (Num 0) k \<and> f64_less (Num 0) z then
            bind_r (py_div_f64 k (f64_mul (f64_mul (Num 2) z) j)) (\<lambda>c.
              Inr (if f64_less (Num 0) c then Some c else None))
          else Inr None)"

fun opt_list :: "'a option \<Rightarrow> 'a list" where
  "opt_list None = []"
| "opt_list (Some x) = [x]"



subsection \<open>Reading the outcome of a call\<close>

text \<open>Whether a call returned a result object, and that object.\<close>

definition returned :: "py_error + 'a option \<Rightarrow> bool" where
  "returned d = (case d of Inr (Some r) \<Rightarrow> True | _ \<Rightarrow> False)"

definition result_of :: "py_error + 'a option \<Rightarrow> 'a" where
  "result_of d = the (projr d)"



section \<open>The same function in exact arithmetic\<close>

text \<open>
  Python's \<^verbatim>\<open>float\<close> idealised as \<^typ>\<open>real\<close>. The one infinity the code itself
  writes, \<^verbatim>\<open>float("inf")\<close> for the two time metrics, is a constructor of its own.
\<close>

datatype pyfloat = Fin real | PInf

text \<open>The dataclass \<^verbatim>\<open>PDDesignResult\<close> (lines 10-33), field by field.\<close>

record PDDesignResult =
  J :: real
  f_n_des :: real
  zeta_des :: real
  kp_max :: "real option"
  kd_max :: "real option"
  omega_n_des :: real
  kp_des :: real
  kd_des :: real
  kp_actual :: real
  kd_actual :: real
  omega_n_actual :: real
  f_n_actual :: real
  zeta_actual :: real
  t_r_actual :: pyfloat
  t_s_actual :: pyfloat

definition py_div :: "real \<Rightarrow> real \<Rightarrow> py_error + real" where
  "py_div a b = (if b = 0 then Inl ZeroDivisionError else Inr (a / b))"

definition math_sqrt :: "real \<Rightarrow> py_error + real" where
  "math_sqrt x = (if x < 0 then Inl ValueError else Inr (sqrt x))"

text \<open>
  \<^verbatim>\<open>min(xs)\<close>: the first element is the running minimum, and a later element
  replaces it only when strictly smaller.
\<close>

fun py_min :: "real list \<Rightarrow> py_error + real" where
  "py_min [] = Inl ValueError"
| "py_min (x # xs) = Inr (fold (\<lambda>y m. if y < m then y else m) xs x)"

subsection \<open>The candidate frequencies (lines 56-68)\<close>

text \<open>
  \<^verbatim>\<open>omega_n_limits\<close> starts as \<^verbatim>\<open>[omega_n_des]\<close>; the Kp block appends
  \<^verbatim>\<open>math.sqrt(kp_max / J)\<close> and the Kd block appends
  \<^verbatim>\<open>kd_max / (2.0 * zeta_des * J)\<close>, each under the guards of the source.
\<close>

definition omega_n_limits ::
  "real \<Rightarrow> real \<Rightarrow> real \<Rightarrow> real option \<Rightarrow> real option \<Rightarrow> py_error + real list" where
  "omega_n_limits = (\<lambda>J omega_n_des zeta_des kp_max kd_max.
     bind_r
       (case kp_max of
          None \<Rightarrow> Inr [omega_n_des]
        | Some kp \<Rightarrow>
            if kp > 0 then
              bind_r (py_div kp J) (\<lambda>q.
              bind_r (math_sqrt q) (\<lambda>omega_n_limit_kp.
                Inr (if omega_n_limit_kp > 0 then [omega_n_des] @ [omega_n_limit_kp]
                     else [omega_n_des])))
            else Inr [omega_n_des])
       (\<lambda>limits.
          case kd_max of
            None \<Rightarrow> Inr limits
          | Some kd \<Rightarrow>
              if kd > 0 \<and> zeta_des > 0 then
                bind_r (py_div kd (2 * zeta_des * J)) (\<lambda>omega_n_limit_kd.
                  Inr (if omega_n_limit_kd > 0 then limits @ [omega_n_limit_kd] else limits))
              else Inr limits))"

subsection \<open>The design function (lines 35-107)\<close>

definition design_pd_with_limits ::
  "real \<Rightarrow> real \<Rightarrow> real \<Rightarrow> real option \<Rightarrow> real option \<Rightarrow> py_error + PDDesignResult option" where
  "design_pd_with_limits = (\<lambda>J f_n_des zeta_des kp_max kd_max.
     if J \<le> 0 then Inr None
     else
       let omega_n_des = 2 * pi * f_n_des;
           kp_des = J * omega_n_des ^ 2;
           kd_des = 2 * zeta_des * J * omega_n_des
       in
       bind_r (omega_n_limits J omega_n_des zeta_des kp_max kd_max) (\<lambda>limits.
       bind_r (py_min limits) (\<lambda>omega_n_actual.
         let kp_actual = J * omega_n_actual ^ 2;
             kd_actual = 2 * zeta_des * J * omega_n_actual
         in
         bind_r (py_div omega_n_actual (2 * pi)) (\<lambda>f_n_actual.
         bind_r
           (if kp_actual > 0 then
              bind_r (math_sqrt (J * kp_actual)) (\<lambda>s. py_div kd_actual (2 * s))
            else Inr 0) (\<lambda>zeta_actual.
         bind_r
           (if omega_n_actual > 0 then
              bind_r (py_div 1.8 omega_n_actual) (\<lambda>t_r.
              bind_r
                (if zeta_actual > 0 then
                   bind_r (py_div 4 (zeta_actual * omega_n_actual)) (\<lambda>t_s. Inr (Fin t_s))
                 else Inr PInf) (\<lambda>t_s_actual.
              Inr (Fin t_r, t_s_actual)))
            else Inr (PInf, PInf)) (\<lambda>(t_r_actual, t_s_actual).
         Inr (Some \<lparr>J = J, f_n_des = f_n_des, zeta_des = zeta_des,
                    kp_max = kp_max, kd_max = kd_max,
                    omega_n_des = omega_n_des, kp_des = kp_des, kd_des = kd_des,
                    kp_actual = kp_actual, kd_actual = kd_actual,
                    omega_n_actual = omega_n_actual, f_n_actual = f_n_actual,
                    zeta_actual = zeta_actual,
                    t_r_actual = t_r_actual, t_s_actual = t_s_actual\<rparr>)))))))"

subsection \<open>Closed forms used in the proofs\<close>




section \<open>The code against its closed form\<close>

lemma bind_r_Inr [simp]: "bind_r (Inr v) k = k v"
  by (simp add: bind_r_def)

lemma bind_r_Inl [simp]: "bind_r (Inl e) k = Inl e"
  by (simp add: bind_r_def)







subsection \<open>The minimum of the candidates\<close>



section \<open>Bounds on \<open>pi\<close>\<close>

text \<open>
  The first scenario of the specification states its values to five digits, which needs
  \<open>3.14159 < pi < 3.1416\<close>. Both bounds come from \<open>sin (pi / 6) = 1 / 2\<close>, the
  monotonicity of the sine on \<open>[0, 1]\<close> and its Maclaurin polynomial of degree seven.
\<close>

lemma sin_taylor9:
  fixes x :: real
  shows "\<bar>sin x - (x - x ^ 3 / 6 + x ^ 5 / 120 - x ^ 7 / 5040)\<bar> \<le> \<bar>x\<bar> ^ 9 / 362880"
proof -
  have "{..<9::nat} = {0, 1, 2, 3, 4, 5, 6, 7, 8}"
    by auto
  then have "(\<Sum>m<9. sin_coeff m * x ^ m) = x - x ^ 3 / 6 + x ^ 5 / 120 - x ^ 7 / 5040"
    by (simp add: sin_coeff_def fact_numeral)
  moreover have "inverse (fact 9) * \<bar>x\<bar> ^ 9 = \<bar>x\<bar> ^ 9 / 362880"
    by (simp add: fact_numeral)
  ultimately show ?thesis
    using Maclaurin_sin_bound [of x 9] by (simp only:)
qed

lemma sin_upper9:
  fixes a :: real
  shows "sin a \<le> (a - a ^ 3 / 6 + a ^ 5 / 120 - a ^ 7 / 5040) + \<bar>a\<bar> ^ 9 / 362880"
  using sin_taylor9 [of a] by (simp only: abs_le_iff) linarith


lemma sin_less_imp_less:
  fixes a b :: real
  assumes "sin a < sin b" "0 \<le> a" "a \<le> 1" "0 \<le> b" "b \<le> 1"
  shows "a < b"
proof -
  have "1 \<le> pi / 2" using pi_ge_two by simp
  with assms have "- (pi / 2) \<le> a" "a \<le> pi / 2" "- (pi / 2) \<le> b" "b \<le> pi / 2"
    by linarith+
  then show ?thesis
    using assms(1) sin_mono_less_eq [of a b] by blast
qed

lemma pi6_range: "0 \<le> pi / 6 \<and> pi / 6 \<le> 1"
  using pi_ge_two pi_less_4 by simp

lemma pi_lower: "3.14159 < pi"
proof -
  have "sin (314159 / 600000) \<le> (1 / 2 :: real) - 1 / 10 ^ 7"
    by (rule order_trans [OF sin_upper9]) (simp add: field_simps)
  then have "sin (314159 / 600000) < sin (pi / 6)"
    by (simp add: sin_30)
  moreover have "(0::real) \<le> 314159 / 600000" "(314159 / 600000 :: real) \<le> 1"
    by simp_all
  ultimately have "314159 / 600000 < pi / 6"
    using pi6_range by (blast intro: sin_less_imp_less)
  then show ?thesis
    by simp
qed


lemma pi_gt_3: "3 < pi"
  using pi_lower by simp


section \<open>binary64: rounding\<close>

text \<open>
  What the claims need of \<open>rnd\<close>: it never gives NaN, keeps the sign, is exact at zero,
  errs by at most half a spacing, hence by a relative \<open>2 ^ (- 53)\<close> in the normal range,
  stays finite up to \<open>2 ^ 1023\<close>, and flushes to zero below \<open>2 ^ (- 1075)\<close>.
\<close>

lemma rne_error: "\<bar>of_int (rne t) - t\<bar> \<le> 1 / 2"
proof -
  have "of_int \<lfloor>t\<rfloor> \<le> t" "t < of_int \<lfloor>t\<rfloor> + 1"
    by linarith+
  then show ?thesis
    by (auto simp: rne_def Let_def)
qed

lemma rne_nonneg: "0 \<le> t \<Longrightarrow> 0 \<le> rne t"
  by (auto simp: rne_def Let_def)

lemma rne_nonpos: "t \<le> 0 \<Longrightarrow> rne t \<le> 0"
proof -
  assume t: "t \<le> 0"
  show ?thesis
  proof (cases "t = 0")
    case True
    then show ?thesis by (simp add: rne_def)
  next
    case False
    with t have "t < 0" by simp
    then have "\<lfloor>t\<rfloor> \<le> - 1"
      by (simp add: floor_le_iff)
    then show ?thesis
      by (auto simp: rne_def Let_def)
  qed
qed

lemma rne_small: "\<bar>t\<bar> < 1 / 2 \<Longrightarrow> rne t = 0"
proof -
  assume a: "\<bar>t\<bar> < 1 / 2"
  show ?thesis
  proof (cases "0 \<le> t")
    case True
    with a have "\<lfloor>t\<rfloor> = 0" by (simp add: floor_eq_iff)
    with a True show ?thesis by (simp add: rne_def Let_def)
  next
    case False
    with a have "\<lfloor>t\<rfloor> = - 1" by (simp add: floor_eq_iff)
    with a False show ?thesis by (simp add: rne_def Let_def)
  qed
qed

lemma quantum_pos: "0 < quantum x"
  by (simp add: quantum_def)

lemma pow2_minus_1022: "2 powr (- 1022) = (1::real) / 2 ^ 1022"
  by (simp add: powr_minus_divide)

lemma pow2_minus_1074: "2 powr (- 1074) = (1::real) / 2 ^ 1074"
  by (simp add: powr_minus_divide)

lemma quantum_subnormal:
  assumes "x \<noteq> 0" "\<bar>x\<bar> < 1 / 2 ^ 1022"
  shows "quantum x = 1 / 2 ^ 1074"
proof -
  have "\<bar>x\<bar> < 2 powr (- 1022)"
    using assms(2) by (simp only: pow2_minus_1022)
  then have "log 2 \<bar>x\<bar> < log 2 (2 powr (- 1022))"
    using assms(1) by (subst log_less_cancel_iff) simp_all
  then have "log 2 \<bar>x\<bar> < - 1022"
    by simp
  then have "\<lfloor>log 2 \<bar>x\<bar>\<rfloor> \<le> - 1022"
    by (simp add: floor_le_iff)
  then have "max \<lfloor>log 2 \<bar>x\<bar>\<rfloor> (- 1022) = - 1022"
    by simp
  then have "quantum x = 2 powr (- 1074)"
    by (simp add: quantum_def)
  then show ?thesis
    by (simp only: pow2_minus_1074)
qed

lemma quantum_normal:
  assumes "1 / 2 ^ 1022 \<le> \<bar>x\<bar>"
  shows "quantum x \<le> \<bar>x\<bar> / 2 ^ 52"
proof -
  have le: "2 powr (- 1022) \<le> \<bar>x\<bar>"
    using assms by (simp only: pow2_minus_1022)
  have "(0::real) < 2 powr (- 1022)"
    by simp
  with le have x: "0 < \<bar>x\<bar>"
    by linarith
  have "log 2 (2 powr (- 1022)) \<le> log 2 \<bar>x\<bar>"
    using le x by (subst log_le_cancel_iff) simp_all
  then have "- 1022 \<le> log 2 \<bar>x\<bar>"
    by simp
  then have "- 1022 \<le> \<lfloor>log 2 \<bar>x\<bar>\<rfloor>"
    by (simp add: le_floor_iff)
  then have "max \<lfloor>log 2 \<bar>x\<bar>\<rfloor> (- 1022) = \<lfloor>log 2 \<bar>x\<bar>\<rfloor>"
    by simp
  then have "quantum x = 2 powr (of_int \<lfloor>log 2 \<bar>x\<bar>\<rfloor> - 52)"
    by (simp add: quantum_def)
  also have "\<dots> = 2 powr (of_int \<lfloor>log 2 \<bar>x\<bar>\<rfloor>) / 2 powr 52"
    by (simp only: powr_diff)
  also have "\<dots> \<le> 2 powr (log 2 \<bar>x\<bar>) / 2 powr 52"
    by (intro divide_right_mono powr_mono) simp_all
  also have "2 powr (log 2 \<bar>x\<bar>) = \<bar>x\<bar>"
    using x by simp
  also have "(2::real) powr 52 = 2 ^ 52"
    by simp
  finally show ?thesis .
qed


lemma rnd_zero: "rnd 0 = Num 0"
  by (simp add: rnd_def)

lemma rnd_error:
  assumes "rnd x = Num y"
  shows "\<bar>y - x\<bar> \<le> quantum x / 2"
proof (cases "x = 0")
  case True
  with assms show ?thesis
    using quantum_pos [of x] by (simp add: rnd_def)
next
  case False
  define q where "q = quantum x"
  have q: "0 < q" by (simp add: q_def quantum_pos)
  from assms False have y: "y = of_int (rne (x / q)) * q"
    by (simp add: rnd_def Let_def q_def split: if_splits)
  have "y - x = (of_int (rne (x / q)) - x / q) * q"
    using q by (simp add: y field_simps)
  then have "\<bar>y - x\<bar> = \<bar>of_int (rne (x / q)) - x / q\<bar> * q"
    using q by (simp add: abs_mult)
  also have "\<dots> \<le> 1 / 2 * q"
    using q rne_error [of "x / q"] by (intro mult_right_mono) simp_all
  finally show ?thesis
    by (simp add: q_def)
qed

lemma rnd_finite:
  assumes "\<bar>x\<bar> \<le> 2 ^ 1023"
  shows "\<exists>y. rnd x = Num y"
proof (cases "x = 0")
  case True
  then show ?thesis by (simp add: rnd_def)
next
  case False
  define q where "q = quantum x"
  define y where "y = of_int (rne (x / q)) * q"
  have q: "0 < q" by (simp add: q_def quantum_pos)
  have "y - x = (of_int (rne (x / q)) - x / q) * q"
    using q by (simp add: y_def field_simps)
  then have "\<bar>y - x\<bar> = \<bar>of_int (rne (x / q)) - x / q\<bar> * q"
    using q by (simp add: abs_mult)
  also have "\<dots> \<le> 1 / 2 * q"
    using q rne_error [of "x / q"] by (intro mult_right_mono) simp_all
  finally have err: "\<bar>y - x\<bar> \<le> q / 2" by simp
  have qb: "q \<le> 2 ^ 971"
  proof (cases "1 / 2 ^ 1022 \<le> \<bar>x\<bar>")
    case True
    then have "q \<le> \<bar>x\<bar> / 2 ^ 52"
      unfolding q_def by (rule quantum_normal)
    also have "\<dots> \<le> 2 ^ 1023 / 2 ^ 52"
      using assms by (simp add: divide_right_mono)
    also have "\<dots> = (2::real) ^ 971"
      by simp
    finally show ?thesis .
  next
    case False
    then have "q = 1 / 2 ^ 1074"
      unfolding q_def using \<open>x \<noteq> 0\<close> by (intro quantum_subnormal) simp_all
    then show ?thesis by simp
  qed
  have "\<bar>y\<bar> \<le> \<bar>x\<bar> + q / 2"
    using err by linarith
  also have "\<dots> \<le> 2 ^ 1023 + 2 ^ 971 / 2"
    using assms qb by (intro add_mono) simp_all
  also have "\<dots> < (2::real) ^ 1024"
    by simp
  finally have "\<not> 2 ^ 1024 \<le> \<bar>y\<bar>" by simp
  then show ?thesis
    using False by (simp add: rnd_def Let_def q_def y_def)
qed

lemma rnd_normal:
  assumes "1 / 2 ^ 1022 \<le> \<bar>x\<bar>" "\<bar>x\<bar> \<le> 2 ^ 1023"
  shows "\<exists>y. rnd x = Num y \<and> \<bar>y - x\<bar> \<le> \<bar>x\<bar> / 2 ^ 53"
proof -
  from assms(2) obtain y where y: "rnd x = Num y"
    using rnd_finite by blast
  then have "\<bar>y - x\<bar> \<le> quantum x / 2"
    by (rule rnd_error)
  also have "\<dots> \<le> \<bar>x\<bar> / 2 ^ 52 / 2"
    using quantum_normal [OF assms(1)] by simp
  finally show ?thesis
    using y by simp
qed

lemma rnd_underflow:
  assumes "\<bar>x\<bar> < 1 / 2 ^ 1075"
  shows "rnd x = Num 0"
proof (cases "x = 0")
  case True
  then show ?thesis by (simp add: rnd_def)
next
  case False
  have "\<bar>x\<bar> < 1 / 2 ^ 1022"
    using assms by (rule less_trans) simp
  with False have q: "quantum x = 1 / 2 ^ 1074"
    by (rule quantum_subnormal)
  have "\<bar>x / quantum x\<bar> < 1 / 2"
    using assms by (simp add: q abs_mult)
  then have "rne (x / quantum x) = 0"
    by (rule rne_small)
  then show ?thesis
    using False by (simp add: rnd_def Let_def)
qed

lemma rnd_nonneg:
  assumes "0 \<le> x"
  shows "rnd x = PosInf \<or> (\<exists>y. rnd x = Num y \<and> 0 \<le> y)"
proof -
  have "0 \<le> rne (x / quantum x)"
    using assms quantum_pos [of x] by (intro rne_nonneg) simp
  then have "0 \<le> of_int (rne (x / quantum x)) * quantum x"
    using quantum_pos [of x] by simp
  then show ?thesis
    using assms by (auto simp: rnd_def Let_def)
qed

lemma rnd_nonpos:
  assumes "x \<le> 0"
  shows "rnd x = NegInf \<or> (\<exists>y. rnd x = Num y \<and> y \<le> 0)"
proof -
  have "rne (x / quantum x) \<le> 0"
    using assms quantum_pos [of x] by (intro rne_nonpos) (simp add: divide_nonpos_pos)
  then have "of_int (rne (x / quantum x)) * quantum x \<le> 0"
    using quantum_pos [of x] by (simp add: mult_nonpos_nonneg)
  then show ?thesis
    using assms by (auto simp: rnd_def Let_def)
qed

section \<open>binary64: the shape of a result\<close>

lemma bind_r_eq_Inr: "bind_r m k = Inr y \<longleftrightarrow> (\<exists>v. m = Inr v \<and> k v = Inr y)"
  by (cases m) simp_all

lemma omega_n_limits_f64_candidates:
  "omega_n_limits_f64 j w z kp kd =
     bind_r (kp_candidate_f64 j kp) (\<lambda>a.
     bind_r (kd_candidate_f64 j z kd) (\<lambda>b. Inr (w # opt_list a @ opt_list b)))"
  by (auto simp: omega_n_limits_f64_def kp_candidate_f64_def kd_candidate_f64_def bind_r_def
      split: option.splits sum.splits)

lemma kp_candidate_pos: "kp_candidate_f64 j kp = Inr (Some s) \<Longrightarrow> f64_less (Num 0) s"
  by (auto simp: kp_candidate_f64_def bind_r_def split: option.splits sum.splits if_splits)


lemma f64_less_irrefl [simp]: "\<not> f64_less a a"
  by (cases a) simp_all



lemma f64_less_NaN [simp]: "\<not> f64_less NaN a" "\<not> f64_less a NaN"
  by (cases a; simp)+

lemma f64_less_linear: "a \<noteq> NaN \<Longrightarrow> b \<noteq> NaN \<Longrightarrow> f64_less a b \<or> a = b \<or> f64_less b a"
  by (cases a; cases b) auto

lemma design_f64_Some:
  assumes "design_pd_with_limits_f64 j f z kp kd = Inr (Some r)"
  obtains sq a b wa sqa fa za tr ts where
    "\<not> f64_le j (Num 0)"
    "py_pow2_f64 (f64_mul (f64_mul (Num 2) math_pi) f) = Inr sq"
    "kp_candidate_f64 j kp = Inr a"
    "kd_candidate_f64 j z kd = Inr b"
    "py_min_f64 (f64_mul (f64_mul (Num 2) math_pi) f # opt_list a @ opt_list b) = Inr wa"
    "py_pow2_f64 wa = Inr sqa"
    "py_div_f64 wa (f64_mul (Num 2) math_pi) = Inr fa"
    "(if f64_less (Num 0) (f64_mul j sqa) then
        bind_r (math_sqrt_f64 (f64_mul j (f64_mul j sqa))) (\<lambda>s.
          py_div_f64 (f64_mul (f64_mul (f64_mul (Num 2) z) j) wa) (f64_mul (Num 2) s))
      else Inr (Num 0)) = Inr za"
    "(if f64_less (Num 0) wa then
        bind_r (py_div_f64 lit_1_8 wa) (\<lambda>t_r.
        bind_r
          (if f64_less (Num 0) za then py_div_f64 (Num 4) (f64_mul za wa) else Inr PosInf)
          (\<lambda>t_s_actual. Inr (t_r, t_s_actual)))
      else Inr (PosInf, PosInf)) = Inr (tr, ts)"
    "r = \<lparr>PDDesignResult_f64.J = j, PDDesignResult_f64.f_n_des = f, PDDesignResult_f64.zeta_des = z, PDDesignResult_f64.kp_max = kp, PDDesignResult_f64.kd_max = kd,
          PDDesignResult_f64.omega_n_des = f64_mul (f64_mul (Num 2) math_pi) f,
          PDDesignResult_f64.kp_des = f64_mul j sq,
          PDDesignResult_f64.kd_des = f64_mul (f64_mul (f64_mul (Num 2) z) j) (f64_mul (f64_mul (Num 2) math_pi) f),
          PDDesignResult_f64.kp_actual = f64_mul j sqa,
          PDDesignResult_f64.kd_actual = f64_mul (f64_mul (f64_mul (Num 2) z) j) wa,
          PDDesignResult_f64.omega_n_actual = wa, PDDesignResult_f64.f_n_actual = fa, PDDesignResult_f64.zeta_actual = za,
          PDDesignResult_f64.t_r_actual = tr, PDDesignResult_f64.t_s_actual = ts\<rparr>"
proof -
  from assms have nz: "\<not> f64_le j (Num 0)"
    by (auto simp: design_pd_with_limits_f64_def split: if_splits)
  from assms nz show ?thesis
    unfolding design_pd_with_limits_f64_def Let_def omega_n_limits_f64_candidates
    by (simp only: if_False bind_r_eq_Inr) (auto intro: that)
qed

lemma f64_mul_Num_Num: "f64_mul (Num x) (Num y) = rnd (x * y)"
  by (simp add: f64_mul_def)


lemma two_pi_f64: "\<exists>t. f64_mul (Num 2) math_pi = Num t \<and> 6 < t \<and> t < 7"
proof -
  define c :: real where "c = 2 * (884279719003555 / 2 ^ 48)"
  have c: "6.2 < c" "c < 6.3"
    by (simp_all add: c_def)
  have "1 / 2 ^ 1022 \<le> \<bar>c\<bar>" "\<bar>c\<bar> \<le> 2 ^ 1023"
    by (simp_all add: c_def)
  then obtain y where y: "rnd c = Num y" and e: "\<bar>y - c\<bar> \<le> \<bar>c\<bar> / 2 ^ 53"
    using rnd_normal [of c] by auto
  have "\<bar>c\<bar> / 2 ^ 53 \<le> 1 / 10"
    by (simp add: c_def)
  with e have d: "\<bar>y - c\<bar> \<le> 1 / 10"
    by linarith
  have "6 < y" "y < 7"
    using c d by linarith+
  then have "6 < y \<and> y < 7" ..
  with y show ?thesis
    by (simp add: f64_mul_Num_Num math_pi_def c_def)
qed



section \<open>binary64: interval bounds for one operation\<close>

text \<open>
  Each lemma takes bounds on the operands of one operation and gives bounds on its float
  result, so that a concrete run of the function is followed line by line without
  computing any rounding exactly.
\<close>


lemma rel_error_bounds:
  fixes x y :: real
  assumes "\<bar>y - x\<bar> \<le> \<bar>x\<bar> / 2 ^ 53"
  shows "0 < x \<Longrightarrow> x * (1 - 1 / 2 ^ 53) \<le> y \<and> y \<le> x * (1 + 1 / 2 ^ 53)"
    and "x < 0 \<Longrightarrow> (- x) * (1 - 1 / 2 ^ 53) \<le> - y \<and> - y \<le> (- x) * (1 + 1 / 2 ^ 53)"
proof -
  define u where "u = \<bar>x\<bar> / 2 ^ 53"
  have e: "\<bar>y - x\<bar> \<le> u"
    using assms by (simp only: u_def)
  have 1: "\<bar>x\<bar> * (1 - 1 / 2 ^ 53) = \<bar>x\<bar> - u" "\<bar>x\<bar> * (1 + 1 / 2 ^ 53) = \<bar>x\<bar> + u"
    by (simp_all only: u_def right_diff_distrib distrib_left mult_1_right times_divide_eq_right)
  show "x * (1 - 1 / 2 ^ 53) \<le> y \<and> y \<le> x * (1 + 1 / 2 ^ 53)" if "0 < x"
  proof -
    from that have "\<bar>x\<bar> = x" by simp
    with 1 have eq: "x * (1 - 1 / 2 ^ 53) = x - u" "x * (1 + 1 / 2 ^ 53) = x + u"
      by simp_all
    show ?thesis
      unfolding eq using e by linarith
  qed
  show "(- x) * (1 - 1 / 2 ^ 53) \<le> - y \<and> - y \<le> (- x) * (1 + 1 / 2 ^ 53)" if "x < 0"
  proof -
    from that have "\<bar>x\<bar> = - x" by simp
    with 1 have eq: "(- x) * (1 - 1 / 2 ^ 53) = - x - u" "(- x) * (1 + 1 / 2 ^ 53) = - x + u"
      by simp_all
    show ?thesis
      unfolding eq using e by linarith
  qed
qed

lemma rnd_in:
  assumes "lo \<le> x" "x \<le> hi" "1 / 2 ^ 1022 \<le> lo" "hi \<le> 2 ^ 1023"
    and "lo' \<le> lo * (1 - 1 / 2 ^ 53)" "hi * (1 + 1 / 2 ^ 53) \<le> hi'"
  shows "\<exists>y. rnd x = Num y \<and> lo' \<le> y \<and> y \<le> hi'"
proof -
  have "(0::real) < 1 / 2 ^ 1022" by simp
  with assms(1,3) have x: "0 < x" by linarith
  then have ax: "\<bar>x\<bar> = x" by simp
  have "1 / 2 ^ 1022 \<le> \<bar>x\<bar>" "\<bar>x\<bar> \<le> 2 ^ 1023"
    unfolding ax using assms(1-4) by linarith+
  then obtain y where y: "rnd x = Num y" and e: "\<bar>y - x\<bar> \<le> \<bar>x\<bar> / 2 ^ 53"
    using rnd_normal by blast
  have b: "x * (1 - 1 / 2 ^ 53) \<le> y" "y \<le> x * (1 + 1 / 2 ^ 53)"
    using rel_error_bounds(1) [OF e x] by blast+
  have "lo * (1 - 1 / 2 ^ 53) \<le> x * (1 - 1 / 2 ^ 53)"
    using assms(1) by (rule mult_right_mono) simp
  moreover have "x * (1 + 1 / 2 ^ 53) \<le> hi * (1 + 1 / 2 ^ 53)"
    using assms(2) by (rule mult_right_mono) simp
  ultimately have "lo' \<le> y" "y \<le> hi'"
    using assms(5,6) b by linarith+
  with y show ?thesis by blast
qed

lemma rnd_in_neg:
  assumes "lo \<le> - x" "- x \<le> hi" "1 / 2 ^ 1022 \<le> lo" "hi \<le> 2 ^ 1023"
    and "lo' \<le> lo * (1 - 1 / 2 ^ 53)" "hi * (1 + 1 / 2 ^ 53) \<le> hi'"
  shows "\<exists>y. rnd x = Num y \<and> lo' \<le> - y \<and> - y \<le> hi'"
proof -
  have "(0::real) < 1 / 2 ^ 1022" by simp
  with assms(1,3) have x: "x < 0" by linarith
  then have ax: "\<bar>x\<bar> = - x" by simp
  have "1 / 2 ^ 1022 \<le> \<bar>x\<bar>" "\<bar>x\<bar> \<le> 2 ^ 1023"
    unfolding ax using assms(1-4) by linarith+
  then obtain y where y: "rnd x = Num y" and e: "\<bar>y - x\<bar> \<le> \<bar>x\<bar> / 2 ^ 53"
    using rnd_normal by blast
  have b: "(- x) * (1 - 1 / 2 ^ 53) \<le> - y" "- y \<le> (- x) * (1 + 1 / 2 ^ 53)"
    using rel_error_bounds(2) [OF e x] by blast+
  have "lo * (1 - 1 / 2 ^ 53) \<le> (- x) * (1 - 1 / 2 ^ 53)"
    using assms(1) by (rule mult_right_mono) simp
  moreover have "(- x) * (1 + 1 / 2 ^ 53) \<le> hi * (1 + 1 / 2 ^ 53)"
    using assms(2) by (rule mult_right_mono) simp
  ultimately have "lo' \<le> - y" "- y \<le> hi'"
    using assms(5,6) b by linarith+
  with y show ?thesis by blast
qed

lemma rnd_overflow:
  assumes "2 ^ 1025 \<le> x"
  shows "rnd x = PosInf"
proof -
  have "(0::real) < 2 ^ 1025" by simp
  with assms have x: "0 < x" by linarith
  then have ax: "\<bar>x\<bar> = x" by simp
  define q where "q = quantum x"
  define y where "y = of_int (rne (x / q)) * q"
  have q: "0 < q" by (simp add: q_def quantum_pos)
  have "(1::real) / 2 ^ 1022 \<le> 2 ^ 1025" by simp
  with assms have "1 / 2 ^ 1022 \<le> \<bar>x\<bar>"
    unfolding ax by linarith
  then have "q \<le> \<bar>x\<bar> / 2 ^ 52"
    unfolding q_def by (rule quantum_normal)
  also have "\<bar>x\<bar> / 2 ^ 52 \<le> x / 1"
    unfolding ax using x by (intro divide_left_mono) simp_all
  finally have qb: "q \<le> x" by simp
  have "y - x = (of_int (rne (x / q)) - x / q) * q"
    using q by (simp add: y_def field_simps)
  then have "\<bar>y - x\<bar> = \<bar>of_int (rne (x / q)) - x / q\<bar> * q"
    using q by (simp add: abs_mult)
  also have "\<dots> \<le> 1 / 2 * q"
    using q rne_error [of "x / q"] by (intro mult_right_mono) simp_all
  finally have "x - q / 2 \<le> y"
    by linarith
  with qb have "x / 2 \<le> y"
    by linarith
  moreover have "(2::real) ^ 1024 = 2 ^ 1025 / 2"
    by simp
  ultimately have "2 ^ 1024 \<le> y"
    using assms by linarith
  then have "2 ^ 1024 \<le> \<bar>y\<bar>"
    by linarith
  moreover have "x \<noteq> 0" using x by simp
  ultimately show ?thesis
    using x unfolding rnd_def Let_def q_def [symmetric] y_def [symmetric]
    by (simp only: if_False if_True)
qed

lemma mul_in:
  assumes "f64_mul (Num x) (Num y) = r" "a \<le> x" "x \<le> b" "c \<le> y" "y \<le> d" "0 < a" "0 < c"
    and "1 / 2 ^ 1022 \<le> a * c" "b * d \<le> 2 ^ 1023"
    and "lo \<le> a * c * (1 - 1 / 2 ^ 53)" "b * d * (1 + 1 / 2 ^ 53) \<le> hi"
  shows "\<exists>z. r = Num z \<and> lo \<le> z \<and> z \<le> hi"
proof -
  have p: "0 \<le> x" "0 \<le> c" "0 \<le> a" "0 \<le> y"
    using assms(2,4,6,7) by linarith+
  have 1: "a * c \<le> x * y"
    using assms(2,4) p by (intro mult_mono)
  have 2: "x * y \<le> b * d"
    using assms(3,5) p by (intro mult_mono) linarith+
  from rnd_in [OF 1 2 assms(8-11)] obtain z where "rnd (x * y) = Num z" "lo \<le> z" "z \<le> hi"
    by blast
  with assms(1) show ?thesis
    by (simp only: f64_mul_Num_Num) blast
qed

lemma div_in:
  assumes "py_div_f64 (Num x) (Num y) = r" "a \<le> x" "x \<le> b" "c \<le> y" "y \<le> d" "0 < a" "0 < c"
    and "1 / 2 ^ 1022 \<le> a / d" "b / c \<le> 2 ^ 1023"
    and "lo \<le> a / d * (1 - 1 / 2 ^ 53)" "b / c * (1 + 1 / 2 ^ 53) \<le> hi"
  shows "\<exists>z. r = Inr (Num z) \<and> lo \<le> z \<and> z \<le> hi"
proof -
  have y: "0 < y" "0 < d" "0 \<le> x" "0 \<le> a"
    using assms(2-7) by linarith+
  have 1: "a / d \<le> x / y"
    using assms(2,5) y by (intro frac_le) simp_all
  have 2: "x / y \<le> b / c"
    using assms(3,4,7) y by (intro frac_le) simp_all
  from rnd_in [OF 1 2 assms(8-11)] obtain z where z: "rnd (x / y) = Num z" "lo \<le> z" "z \<le> hi"
    by blast
  have "Num y \<noteq> Num 0"
    using y(1) by simp
  then have "py_div_f64 (Num x) (Num y) = Inr (rnd (x / y))"
    by (simp add: py_div_f64_def)
  with assms(1) z show ?thesis
    by auto
qed

lemma sqrt_in:
  assumes "math_sqrt_f64 (Num x) = r" "a \<le> x" "x \<le> b" "0 < l" "l ^ 2 \<le> a" "b \<le> h ^ 2" "0 < h"
    and "1 / 2 ^ 1022 \<le> l" "h \<le> 2 ^ 1023"
    and "lo \<le> l * (1 - 1 / 2 ^ 53)" "h * (1 + 1 / 2 ^ 53) \<le> hi"
  shows "\<exists>z. r = Inr (Num z) \<and> lo \<le> z \<and> z \<le> hi"
proof -
  have lx: "l ^ 2 \<le> x" and xh: "x \<le> h ^ 2"
    using assms(2,3,5,6) by linarith+
  have 1: "l \<le> sqrt x"
    using lx by (rule real_le_rsqrt)
  have 2: "sqrt x \<le> h"
    using assms(7) xh by (intro real_le_lsqrt) simp_all
  have "0 \<le> l ^ 2" by simp
  with lx have x: "\<not> x < 0" by linarith
  from rnd_in [OF 1 2 assms(8-11)] obtain z where z: "rnd (sqrt x) = Num z" "lo \<le> z" "z \<le> hi"
    by blast
  have "math_sqrt_f64 (Num x) = Inr (rnd (sqrt x))"
    using x by (simp add: math_sqrt_f64_def)
  with assms(1) z show ?thesis
    by auto
qed

lemma pow2_in:
  assumes "py_pow2_f64 (Num x) = r" "a \<le> x" "x \<le> b" "0 < a"
    and "1 / 2 ^ 1022 \<le> a * a" "b * b \<le> 2 ^ 1023"
    and "lo \<le> a * a * (1 - 1 / 2 ^ 53)" "b * b * (1 + 1 / 2 ^ 53) \<le> hi"
  shows "\<exists>z. r = Inr (Num z) \<and> lo \<le> z \<and> z \<le> hi"
proof -
  have p: "0 \<le> a" "0 \<le> x"
    using assms(2,4) by linarith+
  have 1: "a * a \<le> x * x"
    using assms(2) p by (intro mult_mono)
  have 2: "x * x \<le> b * b"
    using assms(3) p by (intro mult_mono) linarith+
  from rnd_in [OF 1 2 assms(5-8)] obtain z where "rnd (x * x) = Num z" "lo \<le> z" "z \<le> hi"
    by blast
  then show ?thesis
    using assms(1) by (auto simp: py_pow2_f64_def)
qed

lemma pow2_neg_in:
  assumes "py_pow2_f64 (Num x) = r" "a \<le> - x" "- x \<le> b" "0 < a"
    and "1 / 2 ^ 1022 \<le> a * a" "b * b \<le> 2 ^ 1023"
    and "lo \<le> a * a * (1 - 1 / 2 ^ 53)" "b * b * (1 + 1 / 2 ^ 53) \<le> hi"
  shows "\<exists>z. r = Inr (Num z) \<and> lo \<le> z \<and> z \<le> hi"
proof -
  have "py_pow2_f64 (Num (- x)) = py_pow2_f64 (Num x)"
    by (simp add: py_pow2_f64_def)
  with assms(1) have "py_pow2_f64 (Num (- x)) = r" by simp
  then show ?thesis
    using assms(2-8) by (rule pow2_in)
qed


lemma mul_underflow:
  assumes "\<bar>x\<bar> \<le> a" "\<bar>y\<bar> \<le> b" "a * b < 1 / 2 ^ 1075"
  shows "f64_mul (Num x) (Num y) = Num 0"
proof -
  have "0 \<le> a" using assms(1) by linarith
  have "\<bar>x * y\<bar> = \<bar>x\<bar> * \<bar>y\<bar>"
    by (simp add: abs_mult)
  also have "\<dots> \<le> a * b"
    using assms(1,2) \<open>0 \<le> a\<close> by (intro mult_mono) simp_all
  finally have "\<bar>x * y\<bar> < 1 / 2 ^ 1075"
    using assms(3) by linarith
  then have "rnd (x * y) = Num 0"
    by (rule rnd_underflow)
  then show ?thesis
    by (simp only: f64_mul_Num_Num)
qed


lemma f64_mul_zero_left: "f64_mul (Num 0) (Num y) = Num 0"
  by (simp add: f64_mul_Num_Num rnd_zero)

lemma f64_mul_zero_right: "f64_mul (Num x) (Num 0) = Num 0"
  by (simp add: f64_mul_Num_Num rnd_zero)

lemma py_div_zero_num: "y \<noteq> 0 \<Longrightarrow> py_div_f64 (Num 0) (Num y) = Inr (Num 0)"
  by (simp add: py_div_f64_def rnd_zero)

section \<open>binary64: concrete runs\<close>


lemma kd_candidate_zero_damping [simp]: "kd_candidate_f64 j (Num 0) kd = Inr None"
  by (simp add: kd_candidate_f64_def split: option.splits)

lemma trace_plain:
  obtains w p fa tr where
    "design_pd_with_limits_f64 (Num 1) (Num 1) (Num 0) None None =
      Inr (Some \<lparr>PDDesignResult_f64.J = Num 1, PDDesignResult_f64.f_n_des = Num 1, PDDesignResult_f64.zeta_des = Num 0, PDDesignResult_f64.kp_max = None, PDDesignResult_f64.kd_max = None,
        PDDesignResult_f64.omega_n_des = Num w, PDDesignResult_f64.kp_des = Num p, PDDesignResult_f64.kd_des = Num 0, PDDesignResult_f64.kp_actual = Num p, PDDesignResult_f64.kd_actual = Num 0,
        PDDesignResult_f64.omega_n_actual = Num w, PDDesignResult_f64.f_n_actual = Num fa, PDDesignResult_f64.zeta_actual = Num 0,
        PDDesignResult_f64.t_r_actual = Num tr, PDDesignResult_f64.t_s_actual = PosInf\<rparr>)"
    "5 < w" "w < 8"
proof -
  obtain t where t: "f64_mul (Num 2) math_pi = Num t" "6 < t" "t < 7"
    using two_pi_f64 by blast
  obtain w where w: "f64_mul (Num t) (Num 1) = Num w" "5.9 \<le> w" "w \<le> 7.1"
    using mul_in [OF refl, of 6 t 7 1 1 1 "5.9" "7.1"] t(2,3) by auto
  obtain sq where sq: "py_pow2_f64 (Num w) = Inr (Num sq)" "34 \<le> sq" "sq \<le> 51"
    using pow2_in [OF refl w(2,3), of 34 51] by auto
  obtain p where p: "f64_mul (Num 1) (Num sq) = Num p" "33 \<le> p" "p \<le> 52"
    using mul_in [OF refl, of 1 1 1 34 sq 51 33 52] sq(2,3) by auto
  obtain jp where jp: "f64_mul (Num 1) (Num p) = Num jp" "32 \<le> jp" "jp \<le> 53"
    using mul_in [OF refl, of 1 1 1 33 p 52 32 53] p(2,3) by auto
  obtain s where s: "math_sqrt_f64 (Num jp) = Inr (Num s)" "4 \<le> s" "s \<le> 9"
    using sqrt_in [OF refl jp(2,3), of 5 8 4 9] by auto
  obtain s2 where s2: "f64_mul (Num 2) (Num s) = Num s2" "7 \<le> s2" "s2 \<le> 19"
    using mul_in [OF refl, of 2 2 2 4 s 9 7 19] s(2,3) by auto
  have za: "py_div_f64 (Num 0) (Num s2) = Inr (Num 0)"
    using s2(2) by (intro py_div_zero_num) simp
  obtain fa where fa: "py_div_f64 (Num w) (Num t) = Inr (Num fa)"
    using div_in [OF refl w(2,3), of 6 t 7 "0.8" "1.2"] t(2,3) by auto
  obtain tr where tr: "py_div_f64 lit_1_8 (Num w) = Inr (Num tr)"
    unfolding lit_1_8_def
    using div_in [OF refl, of "1.8" "8106479329266893 / 2 ^ 52" "1.81" "5.9" w "7.1" "0.2" "0.4"] w(2,3)
    by auto
  have lim: "omega_n_limits_f64 (Num 1) (Num w) (Num 0) None None = Inr [Num w]"
    by (simp add: omega_n_limits_f64_def)
  have "design_pd_with_limits_f64 (Num 1) (Num 1) (Num 0) None None =
    Inr (Some \<lparr>PDDesignResult_f64.J = Num 1, PDDesignResult_f64.f_n_des = Num 1, PDDesignResult_f64.zeta_des = Num 0, PDDesignResult_f64.kp_max = None, PDDesignResult_f64.kd_max = None,
      PDDesignResult_f64.omega_n_des = Num w, PDDesignResult_f64.kp_des = Num p, PDDesignResult_f64.kd_des = Num 0, PDDesignResult_f64.kp_actual = Num p, PDDesignResult_f64.kd_actual = Num 0,
      PDDesignResult_f64.omega_n_actual = Num w, PDDesignResult_f64.f_n_actual = Num fa, PDDesignResult_f64.zeta_actual = Num 0,
      PDDesignResult_f64.t_r_actual = Num tr, PDDesignResult_f64.t_s_actual = PosInf\<rparr>)"
    using p(2) w(2)
    by (simp add: design_pd_with_limits_f64_def Let_def f64_le_def t(1) w(1) sq(1) p(1) jp(1)
        s(1) s2(1) za fa tr lim f64_mul_zero_left f64_mul_zero_right)
  moreover have "5 < w" "w < 8"
    using w(2,3) by linarith+
  ultimately show ?thesis
    by (rule that)
qed


lemma trace_overflow:
  assumes big: "big = 2 ^ 1023"
  shows "design_pd_with_limits_f64 (Num 1) (Num big) (Num 0) None None =
    Inr (Some \<lparr>PDDesignResult_f64.J = Num 1, PDDesignResult_f64.f_n_des = Num big, PDDesignResult_f64.zeta_des = Num 0, PDDesignResult_f64.kp_max = None, PDDesignResult_f64.kd_max = None,
      PDDesignResult_f64.omega_n_des = PosInf, PDDesignResult_f64.kp_des = PosInf, PDDesignResult_f64.kd_des = NaN, PDDesignResult_f64.kp_actual = PosInf, PDDesignResult_f64.kd_actual = NaN,
      PDDesignResult_f64.omega_n_actual = PosInf, PDDesignResult_f64.f_n_actual = PosInf, PDDesignResult_f64.zeta_actual = NaN,
      PDDesignResult_f64.t_r_actual = Num 0, PDDesignResult_f64.t_s_actual = PosInf\<rparr>)"
proof -
  obtain t where t: "f64_mul (Num 2) math_pi = Num t" "6 < t" "t < 7"
    using two_pi_f64 by blast
  have "(2::real) ^ 1025 = 4 * 2 ^ 1023"
    by simp
  also have "\<dots> \<le> t * 2 ^ 1023"
    using t(2) by (intro mult_right_mono) simp_all
  finally have "rnd (t * big) = PosInf"
    unfolding big by (rule rnd_overflow)
  then have w: "f64_mul (Num t) (Num big) = PosInf"
    by (simp only: f64_mul_Num_Num)
  have inf: "f64_mul (Num 1) PosInf = PosInf" "f64_mul (Num 2) PosInf = PosInf"
    "f64_mul (Num 0) PosInf = NaN"
    by (simp_all add: f64_mul_def inf_f64_def)
  have fa: "py_div_f64 PosInf (Num t) = Inr PosInf"
    using t(2) by (simp add: py_div_f64_def inf_f64_def)
  have za: "py_div_f64 NaN PosInf = Inr NaN"
    by (simp add: py_div_f64_def)
  have tr: "py_div_f64 lit_1_8 PosInf = Inr (Num 0)"
    by (simp add: py_div_f64_def lit_1_8_def)
  have lim: "omega_n_limits_f64 (Num 1) PosInf (Num 0) None None = Inr [PosInf]"
    by (simp add: omega_n_limits_f64_def)
  show ?thesis
    by (simp add: design_pd_with_limits_f64_def Let_def f64_le_def t(1) w inf fa za tr lim
        py_pow2_f64_def math_sqrt_f64_def f64_mul_zero_left f64_mul_zero_right)
qed





text \<open>J = 2^300, f = 2^-500, zeta = 2^-600, bounds 500 and 5: the product on line 89
  underflows.\<close>

lemma trace_product_underflow:
  assumes j: "j = 2 ^ 300" and fq: "fq = 1 / 2 ^ 500" and z: "z = 1 / 2 ^ 600"
  shows "design_pd_with_limits_f64 (Num j) (Num fq) (Num z) (Some (Num 500)) (Some (Num 5))
    = Inl ZeroDivisionError"
proof -
  obtain t where t: "f64_mul (Num 2) math_pi = Num t" "6 < t" "t < 7"
    using two_pi_f64 by blast
  obtain w where w: "f64_mul (Num t) (Num fq) = Num w" "5.9 / 2 ^ 500 \<le> w" "w \<le> 7.1 / 2 ^ 500"
    unfolding fq
    using mul_in [OF refl, of 6 t 7 "1 / 2 ^ 500" "1 / 2 ^ 500" "1 / 2 ^ 500"
        "5.9 / 2 ^ 500" "7.1 / 2 ^ 500"] t(2,3) by auto
  have wpos: "0 < w"
  proof -
    have "(0::real) < 5.9 / 2 ^ 500" by simp
    with w(2) show ?thesis by linarith
  qed
  obtain sq where sq: "py_pow2_f64 (Num w) = Inr (Num sq)" "33 / 2 ^ 1000 \<le> sq" "sq \<le> 52 / 2 ^ 1000"
    using pow2_in [OF refl w(2,3), of "33 / 2 ^ 1000" "52 / 2 ^ 1000"] by auto
  obtain p where p: "f64_mul (Num j) (Num sq) = Num p" "32 / 2 ^ 700 \<le> p" "p \<le> 53 / 2 ^ 700"
    unfolding j
    using mul_in [OF refl, of "2 ^ 300" "2 ^ 300" "2 ^ 300" "33 / 2 ^ 1000" sq "52 / 2 ^ 1000"
        "32 / 2 ^ 700" "53 / 2 ^ 700"] sq(2,3) by auto
  have ppos: "0 < p"
  proof -
    have "(0::real) < 32 / 2 ^ 700" by simp
    with p(2) show ?thesis by linarith
  qed
  obtain a2 where a2: "f64_mul (Num 2) (Num z) = Num a2" "1.9 / 2 ^ 600 \<le> a2" "a2 \<le> 2.1 / 2 ^ 600"
    unfolding z
    using mul_in [OF refl, of 2 2 2 "1 / 2 ^ 600" "1 / 2 ^ 600" "1 / 2 ^ 600"
        "1.9 / 2 ^ 600" "2.1 / 2 ^ 600"] by auto
  obtain d where d: "f64_mul (Num a2) (Num j) = Num d" "1.8 / 2 ^ 300 \<le> d" "d \<le> 2.2 / 2 ^ 300"
    unfolding j
    using mul_in [OF refl, of "1.9 / 2 ^ 600" a2 "2.1 / 2 ^ 600" "2 ^ 300" "2 ^ 300" "2 ^ 300"
        "1.8 / 2 ^ 300" "2.2 / 2 ^ 300"] a2(2,3) by auto
  obtain kdv where kdv: "f64_mul (Num d) (Num w) = Num kdv" "10 / 2 ^ 800 \<le> kdv" "kdv \<le> 16 / 2 ^ 800"
    using mul_in [OF refl, of "1.8 / 2 ^ 300" d "2.2 / 2 ^ 300" "5.9 / 2 ^ 500" w "7.1 / 2 ^ 500"
        "10 / 2 ^ 800" "16 / 2 ^ 800"] d(2,3) w(2,3) by auto
  obtain q where q: "py_div_f64 (Num 500) (Num j) = Inr (Num q)" "499 / 2 ^ 300 \<le> q" "q \<le> 501 / 2 ^ 300"
    unfolding j
    using div_in [OF refl, of 500 500 500 "2 ^ 300" "2 ^ 300" "2 ^ 300" "499 / 2 ^ 300" "501 / 2 ^ 300"]
    by auto
  obtain s where s: "math_sqrt_f64 (Num q) = Inr (Num s)" "21 / 2 ^ 150 \<le> s" "s \<le> 24 / 2 ^ 150"
    using sqrt_in [OF refl q(2,3), of "22 / 2 ^ 150" "23 / 2 ^ 150" "21 / 2 ^ 150" "24 / 2 ^ 150"]
    by (auto simp: power_divide)
  obtain c where c: "py_div_f64 (Num 5) (Num d) = Inr (Num c)" "2.2 * 2 ^ 300 \<le> c" "c \<le> 2.8 * 2 ^ 300"
    using div_in [OF refl, of 5 5 5 "1.8 / 2 ^ 300" d "2.2 / 2 ^ 300" "2.2 * 2 ^ 300" "2.8 * 2 ^ 300"]
      d(2,3) by auto
  have zpos: "0 < z"
    unfolding z by simp
  have spos: "0 < s" and sw: "\<not> s < w"
  proof -
    have "(0::real) < 21 / 2 ^ 150" "(7.1::real) / 2 ^ 500 < 21 / 2 ^ 150" by simp_all
    with s(2) w(3) show "0 < s" "\<not> s < w" by linarith+
  qed
  have cpos: "0 < c" and cw: "\<not> c < w"
  proof -
    have "(0::real) < 2.2 * 2 ^ 300" "(7.1::real) / 2 ^ 500 < 2.2 * 2 ^ 300" by simp_all
    with c(2) w(3) show "0 < c" "\<not> c < w" by linarith+
  qed
  have lim: "omega_n_limits_f64 (Num j) (Num w) (Num z) (Some (Num 500)) (Some (Num 5))
      = Inr [Num w, Num s, Num c]"
    using zpos spos cpos by (simp add: omega_n_limits_f64_def q(1) s(1) a2(1) d(1) c(1))
  have mn: "py_min_f64 [Num w, Num s, Num c] = Inr (Num w)"
    using sw cw by simp
  obtain fa where fa: "py_div_f64 (Num w) (Num t) = Inr (Num fa)"
    using div_in [OF refl w(2,3), of 6 t 7 "0.8 / 2 ^ 500" "1.2 / 2 ^ 500"] t(2,3) by auto
  obtain jp where jp: "f64_mul (Num j) (Num p) = Num jp" "31 / 2 ^ 400 \<le> jp" "jp \<le> 54 / 2 ^ 400"
    unfolding j
    using mul_in [OF refl, of "2 ^ 300" "2 ^ 300" "2 ^ 300" "32 / 2 ^ 700" p "53 / 2 ^ 700"
        "31 / 2 ^ 400" "54 / 2 ^ 400"] p(2,3) by auto
  obtain rt where rt: "math_sqrt_f64 (Num jp) = Inr (Num rt)" "4 / 2 ^ 200 \<le> rt" "rt \<le> 9 / 2 ^ 200"
    using sqrt_in [OF refl jp(2,3), of "5 / 2 ^ 200" "8 / 2 ^ 200" "4 / 2 ^ 200" "9 / 2 ^ 200"]
    by (auto simp: power_divide)
  obtain s2 where s2: "f64_mul (Num 2) (Num rt) = Num s2" "7 / 2 ^ 200 \<le> s2" "s2 \<le> 19 / 2 ^ 200"
    using mul_in [OF refl, of 2 2 2 "4 / 2 ^ 200" rt "9 / 2 ^ 200" "7 / 2 ^ 200" "19 / 2 ^ 200"]
      rt(2,3) by auto
  obtain za where za: "py_div_f64 (Num kdv) (Num s2) = Inr (Num za)" "0.5 / 2 ^ 600 \<le> za"
      "za \<le> 2.3 / 2 ^ 600"
    using div_in [OF refl kdv(2,3), of "7 / 2 ^ 200" s2 "19 / 2 ^ 200" "0.5 / 2 ^ 600" "2.3 / 2 ^ 600"]
      s2(2,3) by auto
  have zapos: "0 < za"
  proof -
    have "(0::real) < 0.5 / 2 ^ 600" by simp
    with za(2) show ?thesis by linarith
  qed
  obtain tr where tr: "py_div_f64 lit_1_8 (Num w) = Inr (Num tr)"
    unfolding lit_1_8_def
    using div_in [OF refl, of "1.8" "8106479329266893 / 2 ^ 52" "1.81"
        "5.9 / 2 ^ 500" w "7.1 / 2 ^ 500" "0.2 * 2 ^ 500" "0.4 * 2 ^ 500"] w(2,3)
    by auto
  have "\<bar>za\<bar> \<le> 2.3 / 2 ^ 600" "\<bar>w\<bar> \<le> 7.1 / 2 ^ 500"
    using zapos za(3) wpos w(3) by simp_all
  then have prod: "f64_mul (Num za) (Num w) = Num 0"
    by (rule mul_underflow) simp
  have last: "py_div_f64 (Num 4) (Num 0) = Inl ZeroDivisionError"
    by (simp add: py_div_f64_def)
  have jpos: "0 < j"
    unfolding j by simp
  show ?thesis
    using wpos ppos zapos jpos
    by (simp add: design_pd_with_limits_f64_def Let_def f64_le_def t(1) w(1) sq(1) p(1) a2(1) d(1)
        kdv(1) lim mn fa jp(1) rt(1) s2(1) za(1) tr prod last del: py_min_f64.simps)
qed


text \<open>J = 1, f = -100, zeta = 0, bounds 500 and 5.\<close>

lemma trace_negative_frequency:
  obtains w p fa where
    "design_pd_with_limits_f64 (Num 1) (Num (- 100)) (Num 0) (Some (Num 500)) (Some (Num 5)) =
      Inr (Some \<lparr>PDDesignResult_f64.J = Num 1, PDDesignResult_f64.f_n_des = Num (- 100),
        PDDesignResult_f64.zeta_des = Num 0,
        PDDesignResult_f64.kp_max = Some (Num 500), PDDesignResult_f64.kd_max = Some (Num 5),
        PDDesignResult_f64.omega_n_des = Num w, PDDesignResult_f64.kp_des = Num p,
        PDDesignResult_f64.kd_des = Num 0, PDDesignResult_f64.kp_actual = Num p,
        PDDesignResult_f64.kd_actual = Num 0,
        PDDesignResult_f64.omega_n_actual = Num w, PDDesignResult_f64.f_n_actual = Num fa,
        PDDesignResult_f64.zeta_actual = Num 0,
        PDDesignResult_f64.t_r_actual = PosInf, PDDesignResult_f64.t_s_actual = PosInf\<rparr>)"
    "w < 0" "357000 \<le> p"
proof -
  obtain t where t: "f64_mul (Num 2) math_pi = Num t" "6 < t" "t < 7"
    using two_pi_f64 by blast
  have "\<exists>y. rnd (t * (- 100)) = Num y \<and> 599 \<le> - y \<and> - y \<le> 701"
    using t(2,3) by (intro rnd_in_neg [of 600 _ 700]) simp_all
  then obtain w where w: "f64_mul (Num t) (Num (- 100)) = Num w" "599 \<le> - w" "- w \<le> 701"
    by (auto simp: f64_mul_Num_Num)
  have wneg: "w < 0"
    using w(2) by simp
  obtain sq where sq: "py_pow2_f64 (Num w) = Inr (Num sq)" "358000 \<le> sq" "sq \<le> 492000"
    using pow2_neg_in [OF refl w(2,3), of 358000 492000] by auto
  obtain p where p: "f64_mul (Num 1) (Num sq) = Num p" "357000 \<le> p" "p \<le> 493000"
    using mul_in [OF refl, of 1 1 1 358000 sq 492000 357000 493000] sq(2,3) by auto
  obtain q where q: "py_div_f64 (Num 500) (Num 1) = Inr (Num q)" "499 \<le> q" "q \<le> 501"
    using div_in [OF refl, of 500 500 500 1 1 1 499 501] by auto
  obtain s where s: "math_sqrt_f64 (Num q) = Inr (Num s)" "21 \<le> s" "s \<le> 24"
    using sqrt_in [OF refl q(2,3), of 22 23 21 24] by auto
  have lim: "omega_n_limits_f64 (Num 1) (Num w) (Num 0) (Some (Num 500)) (Some (Num 5))
      = Inr [Num w, Num s]"
    using s(2) by (simp add: omega_n_limits_f64_def q(1) s(1))
  have mn: "py_min_f64 [Num w, Num s] = Inr (Num w)"
    using s(2) wneg by simp
  have "\<exists>y. rnd (w / t) = Num y \<and> 80 \<le> - y \<and> - y \<le> 120"
  proof (intro rnd_in_neg [of "599 / 7" _ "701 / 6"])
    have "599 / 7 \<le> (- w) / 7"
      using w(2) by simp
    also have "\<dots> \<le> (- w) / t"
      using w(2) t(2,3) by (intro divide_left_mono) simp_all
    finally show "599 / 7 \<le> - (w / t)"
      by simp
    have "(- w) / t \<le> (- w) / 6"
      using w(2) t(2,3) by (intro divide_left_mono) simp_all
    also have "\<dots> \<le> 701 / 6"
      using w(3) by simp
    finally show "- (w / t) \<le> 701 / 6"
      by simp
  qed simp_all
  then obtain fa where fa: "py_div_f64 (Num w) (Num t) = Inr (Num fa)"
    using t(2) by (auto simp: py_div_f64_def)
  obtain jp where jp: "f64_mul (Num 1) (Num p) = Num jp" "356000 \<le> jp" "jp \<le> 494000"
    using mul_in [OF refl, of 1 1 1 357000 p 493000 356000 494000] p(2,3) by auto
  obtain rt where rt: "math_sqrt_f64 (Num jp) = Inr (Num rt)" "590 \<le> rt" "rt \<le> 710"
    using sqrt_in [OF refl jp(2,3), of 596 703 590 710] by auto
  obtain s2 where s2: "f64_mul (Num 2) (Num rt) = Num s2" "1100 \<le> s2"
    using mul_in [OF refl, of 2 2 2 590 rt 710 1100 1500] rt(2,3) by auto
  have za: "py_div_f64 (Num 0) (Num s2) = Inr (Num 0)"
    using s2(2) by (intro py_div_zero_num) simp
  have "design_pd_with_limits_f64 (Num 1) (Num (- 100)) (Num 0) (Some (Num 500)) (Some (Num 5)) =
      Inr (Some \<lparr>PDDesignResult_f64.J = Num 1, PDDesignResult_f64.f_n_des = Num (- 100),
        PDDesignResult_f64.zeta_des = Num 0,
        PDDesignResult_f64.kp_max = Some (Num 500), PDDesignResult_f64.kd_max = Some (Num 5),
        PDDesignResult_f64.omega_n_des = Num w, PDDesignResult_f64.kp_des = Num p,
        PDDesignResult_f64.kd_des = Num 0, PDDesignResult_f64.kp_actual = Num p,
        PDDesignResult_f64.kd_actual = Num 0,
        PDDesignResult_f64.omega_n_actual = Num w, PDDesignResult_f64.f_n_actual = Num fa,
        PDDesignResult_f64.zeta_actual = Num 0,
        PDDesignResult_f64.t_r_actual = PosInf, PDDesignResult_f64.t_s_actual = PosInf\<rparr>)"
    using p(2) wneg
    by (simp add: design_pd_with_limits_f64_def Let_def f64_le_def t(1) w(1) sq(1) p(1) lim mn fa
        jp(1) rt(1) s2(1) za f64_mul_zero_left f64_mul_zero_right del: py_min_f64.simps)
  then show ?thesis
    using wneg p(2) by (rule that)
qed


lemma returned_result [simp]: "returned (Inr (Some r))" "result_of (Inr (Some r)) = r"
  by (simp_all add: returned_def result_of_def)

section \<open>Invalid inertia\<close>

text \<open>
  C1 (as the code has it). For every request with \<open>J \<le> 0\<close> the function returns
  \<^verbatim>\<open>None\<close>, whatever the other four arguments are: no exception is raised and no
  \<^verbatim>\<open>PDDesignResult\<close> is produced.
\<close>

theorem C1_nonpositive_inertia_returns_None:
  "j \<le> 0 \<Longrightarrow> design_pd_with_limits j f z kp kd = Inr None"
  by (simp add: design_pd_with_limits_def)

theorem C1_nonpositive_inertia_returns_None_witness:
  "(-1::real) \<le> 0 \<and> design_pd_with_limits (-1) 12 (3/2) (Some 500) (Some 5) = Inr None"
  using C1_nonpositive_inertia_returns_None [of "-1" 12 "3/2" "Some 500" "Some 5"] by simp

text \<open>
  C1 (as the spec words it) fails: at \<open>J = 0\<close> nothing is raised, the call returns
  normally.
\<close>

theorem C1_no_exception_counterexample:
  "\<not> isl (design_pd_with_limits 0 12 (3/2) (Some 500) (Some 5))"
  by (simp add: design_pd_with_limits_def)

section \<open>Damping ratio at underflow\<close>


section \<open>The frequency is never raised\<close>




section \<open>Pass-through of the theoretical gains\<close>




section \<open>Zero damping\<close>

text \<open>
  C6 (as the code has it). For every request with \<open>zeta_des = 0\<close>, the outcome does not
  depend on \<open>kd_max\<close> but for the field that echoes it. When moreover \<open>J > 0\<close> and a
  result is returned, \<open>omega_n_actual\<close> is \<open>omega_n_des\<close>, or the candidate frequency
  computed for the Kp bound when there is one below \<open>omega_n_des\<close>; and
  \<open>kd_des = kd_actual = 0\<close> as long as \<open>J\<close> and \<open>omega_n_des\<close> are finite.
\<close>

theorem C6_zero_damping_f64:
  "map_sum id (map_option (PDDesignResult_f64.kd_max_update (\<lambda>_. kd')))
      (design_pd_with_limits_f64 j f (Num 0) kp kd)
     = design_pd_with_limits_f64 j f (Num 0) kp kd'
   \<and> (f64_less (Num 0) j \<and> design_pd_with_limits_f64 j f (Num 0) kp kd = Inr (Some r) \<longrightarrow>
        PDDesignResult_f64.omega_n_des r = f64_mul (f64_mul (Num 2) math_pi) f
        \<and> (\<exists>a. kp_candidate_f64 j kp = Inr a
              \<and> PDDesignResult_f64.omega_n_actual r =
                  (case a of
                     None \<Rightarrow> PDDesignResult_f64.omega_n_des r
                   | Some s \<Rightarrow> if f64_less s (PDDesignResult_f64.omega_n_des r) then s
                               else PDDesignResult_f64.omega_n_des r))
        \<and> ((\<exists>x. j = Num x) \<and> (\<exists>w. PDDesignResult_f64.omega_n_des r = Num w) \<longrightarrow>
              PDDesignResult_f64.kd_des r = Num 0 \<and> PDDesignResult_f64.kd_actual r = Num 0))"
proof (intro conjI impI)
  show "map_sum id (map_option (PDDesignResult_f64.kd_max_update (\<lambda>_. kd')))
      (design_pd_with_limits_f64 j f (Num 0) kp kd)
     = design_pd_with_limits_f64 j f (Num 0) kp kd'"
    unfolding design_pd_with_limits_f64_def Let_def omega_n_limits_f64_candidates
    by (auto simp: bind_r_def split: sum.splits prod.splits)
next
  assume h: "f64_less (Num 0) j \<and> design_pd_with_limits_f64 j f (Num 0) kp kd = Inr (Some r)"
  define w where "w = f64_mul (f64_mul (Num 2) math_pi) f"
  from h obtain a b wa where a: "kp_candidate_f64 j kp = Inr a"
    and b: "kd_candidate_f64 j (Num 0) kd = Inr b"
    and mn: "py_min_f64 (w # opt_list a @ opt_list b) = Inr wa"
    and wd: "PDDesignResult_f64.omega_n_des r = w"
    and wa: "PDDesignResult_f64.omega_n_actual r = wa"
    and kdd: "PDDesignResult_f64.kd_des r = f64_mul (f64_mul (f64_mul (Num 2) (Num 0)) j) w"
    and kda: "PDDesignResult_f64.kd_actual r = f64_mul (f64_mul (f64_mul (Num 2) (Num 0)) j) wa"
    unfolding w_def by (elim conjE design_f64_Some) simp
  from b have b: "b = None" by simp
  have wav: "wa = (case a of None \<Rightarrow> w | Some s \<Rightarrow> if f64_less s w then s else w)"
    using mn by (cases a) (simp_all add: b)
  show "PDDesignResult_f64.omega_n_des r = f64_mul (f64_mul (Num 2) math_pi) f"
    by (simp add: wd w_def)
  show "\<exists>a. kp_candidate_f64 j kp = Inr a
          \<and> PDDesignResult_f64.omega_n_actual r =
              (case a of
                 None \<Rightarrow> PDDesignResult_f64.omega_n_des r
               | Some s \<Rightarrow> if f64_less s (PDDesignResult_f64.omega_n_des r) then s
                           else PDDesignResult_f64.omega_n_des r)"
    using a wav unfolding wd wa by blast
  assume fin: "(\<exists>x. j = Num x) \<and> (\<exists>w. PDDesignResult_f64.omega_n_des r = Num w)"
  then obtain x y where x: "j = Num x" and y: "w = Num y"
    by (auto simp: wd)
  have "\<exists>v. wa = Num v"
  proof (cases a)
    case None
    then show ?thesis by (simp add: wav y)
  next
    case (Some s)
    then have "f64_less (Num 0) s"
      using a by (auto intro: kp_candidate_pos)
    then show ?thesis
      unfolding wav Some y by (cases s) auto
  qed
  then obtain v where v: "wa = Num v" ..
  show "PDDesignResult_f64.kd_des r = Num 0"
    by (simp add: kdd x y f64_mul_zero_left f64_mul_zero_right)
  show "PDDesignResult_f64.kd_actual r = Num 0"
    by (simp add: kda x v f64_mul_zero_left f64_mul_zero_right)
qed

text \<open>
  C6 at \<open>J = 1\<close>, \<open>f_n_des = 1\<close>, \<open>zeta_des = 0\<close>, no Kp bound and \<open>kd_max = 5\<close>, read off
  the run without a Kd bound.
\<close>

theorem C6_zero_damping_f64_witness:
  "f64_less (Num 0) (Num 1)
   \<and> returned (design_pd_with_limits_f64 (Num 1) (Num 1) (Num 0) None (Some (Num 5)))
   \<and> PDDesignResult_f64.omega_n_actual (result_of
        (design_pd_with_limits_f64 (Num 1) (Num 1) (Num 0) None (Some (Num 5))))
     = PDDesignResult_f64.omega_n_des (result_of
        (design_pd_with_limits_f64 (Num 1) (Num 1) (Num 0) None (Some (Num 5))))
   \<and> PDDesignResult_f64.kd_des (result_of
        (design_pd_with_limits_f64 (Num 1) (Num 1) (Num 0) None (Some (Num 5)))) = Num 0
   \<and> PDDesignResult_f64.kd_actual (result_of
        (design_pd_with_limits_f64 (Num 1) (Num 1) (Num 0) None (Some (Num 5)))) = Num 0"
proof -
  obtain w p fa tr where r:
    "design_pd_with_limits_f64 (Num 1) (Num 1) (Num 0) None None =
      Inr (Some \<lparr>PDDesignResult_f64.J = Num 1, PDDesignResult_f64.f_n_des = Num 1,
        PDDesignResult_f64.zeta_des = Num 0,
        PDDesignResult_f64.kp_max = None, PDDesignResult_f64.kd_max = None,
        PDDesignResult_f64.omega_n_des = Num w, PDDesignResult_f64.kp_des = Num p,
        PDDesignResult_f64.kd_des = Num 0, PDDesignResult_f64.kp_actual = Num p,
        PDDesignResult_f64.kd_actual = Num 0,
        PDDesignResult_f64.omega_n_actual = Num w, PDDesignResult_f64.f_n_actual = Num fa,
        PDDesignResult_f64.zeta_actual = Num 0,
        PDDesignResult_f64.t_r_actual = Num tr, PDDesignResult_f64.t_s_actual = PosInf\<rparr>)"
    by (rule trace_plain)
  define r' where "r' = \<lparr>PDDesignResult_f64.J = Num 1, PDDesignResult_f64.f_n_des = Num 1,
        PDDesignResult_f64.zeta_des = Num 0,
        PDDesignResult_f64.kp_max = None, PDDesignResult_f64.kd_max = Some (Num 5),
        PDDesignResult_f64.omega_n_des = Num w, PDDesignResult_f64.kp_des = Num p,
        PDDesignResult_f64.kd_des = Num 0, PDDesignResult_f64.kp_actual = Num p,
        PDDesignResult_f64.kd_actual = Num 0,
        PDDesignResult_f64.omega_n_actual = Num w, PDDesignResult_f64.f_n_actual = Num fa,
        PDDesignResult_f64.zeta_actual = Num 0,
        PDDesignResult_f64.t_r_actual = Num tr, PDDesignResult_f64.t_s_actual = PosInf\<rparr>"
  have r': "design_pd_with_limits_f64 (Num 1) (Num 1) (Num 0) None (Some (Num 5)) = Inr (Some r')"
    using C6_zero_damping_f64 [where j = "Num 1" and f = "Num 1" and kp = None and kd = None
        and kd' = "Some (Num 5)" and r = r']
    unfolding r r'_def by simp
  have "PDDesignResult_f64.omega_n_des r' = Num w"
    by (simp add: r'_def)
  then show ?thesis
    using C6_zero_damping_f64 [where j = "Num 1" and f = "Num 1" and kp = None
        and kd = "Some (Num 5)" and kd' = "Some (Num 5)" and r = r']
    unfolding r' by (simp add: kp_candidate_f64_def)
qed

text \<open>
  C6 (as the spec words it) fails at \<open>J = 1\<close>, \<open>f_n_des = 2 ^ 1023\<close>, \<open>zeta_des = 0\<close>:
  \<open>omega_n_des\<close> is infinite and \<open>kd_des\<close> is NaN, not zero.
\<close>

theorem C6_nan_counterexample:
  "returned (design_pd_with_limits_f64 (Num 1) (Num (2 ^ 1023)) (Num 0) None None)
   \<and> \<not> f64_eq
       (PDDesignResult_f64.kd_des (result_of
          (design_pd_with_limits_f64 (Num 1) (Num (2 ^ 1023)) (Num 0) None None)))
       (Num 0)"
  unfolding trace_overflow [OF refl] by (simp add: f64_eq_def)

section \<open>The guarded divisions\<close>

text \<open>
  C7 at the failing input \<open>J = 2 ^ 300\<close>, \<open>f_n_des = 2 ^ (- 500)\<close>,
  \<open>zeta_des = 2 ^ (- 600)\<close>, \<open>kp_max = 500\<close>, \<open>kd_max = 5\<close>: both guards of lines 86 and
  88 hold, the product \<open>zeta_actual * omega_n_actual\<close> underflows to \<open>0.0\<close>, and line 89
  raises \<^verbatim>\<open>ZeroDivisionError\<close>.
\<close>

theorem C7_division_by_zero_on_line_89:
  "design_pd_with_limits_f64 (Num (2 ^ 300)) (Num (1 / 2 ^ 500)) (Num (1 / 2 ^ 600))
     (Some (Num 500)) (Some (Num 5)) = Inl ZeroDivisionError"
  by (rule trace_product_underflow [OF refl refl refl])


section \<open>The first scenario\<close>



section \<open>Positivity\<close>


end
